theory Spec2Isabelle
  imports Main "HOL-Library.Word" "HOL-Library.Sublist" "HOL-Library.AList"
begin

unbundle bit_operations_syntax

section \<open>Handles: the text of a UUID\<close>

text \<open>
  Handles are built from \<^verbatim>\<open>str(uuid.uuid4())\<close>. The value of a UUID is a 128-bit
  integer; \<^verbatim>\<open>str\<close> prints it as 32 lower-case hexadecimal digits
  (\<^verbatim>\<open>'%032x' % int\<close>), cut 8-4-4-4-12 and joined by hyphens. The random draw itself
  is an input of the operations below.
\<close>

type_synonym uuid = "128 word"

definition hex_digit :: "nat \<Rightarrow> char" where
  "hex_digit n = ''0123456789abcdef'' ! n"

definition nibble :: "uuid \<Rightarrow> nat \<Rightarrow> nat" where
  \<comment> \<open>the \<open>i\<close>-th hexadecimal digit from the left, of 32\<close>
  "nibble u i = unat (drop_bit (4 * (31 - i)) u AND 15)"

definition hex32 :: "uuid \<Rightarrow> string" where
  "hex32 u = map (\<lambda>i. hex_digit (nibble u i)) [0..<32]"

definition str_uuid :: "uuid \<Rightarrow> string" where
  "str_uuid u =
     (let h = hex32 u
      in take 8 h @ ''-'' @ take 4 (drop 8 h) @ ''-'' @ take 4 (drop 12 h) @ ''-'' @
         take 4 (drop 16 h) @ ''-'' @ drop 20 h)"

section \<open>Values, parameters and the client capability\<close>

text \<open>
  Connection parameters arrive as a JSON object: a dictionary from strings to JSON values
  (numbers are kept to integers here). \<open>truthy\<close> is Python's truth test, which
  \<^verbatim>\<open>create_connection\<close> applies to \<^verbatim>\<open>user\<close> and \<^verbatim>\<open>password\<close>.
\<close>

datatype pyval =
    PNone
  | PBool bool
  | PInt int
  | PStr string
  | PList "pyval list"
  | PDict "(string \<times> pyval) list"

fun truthy :: "pyval \<Rightarrow> bool" where
  "truthy PNone = False"
| "truthy (PBool b) = b"
| "truthy (PInt i) = (i \<noteq> 0)"
| "truthy (PStr s) = (s \<noteq> [])"
| "truthy (PList xs) = (xs \<noteq> [])"
| "truthy (PDict kvs) = (kvs \<noteq> [])"

type_synonym params = "string \<rightharpoonup> pyval"

definition pget :: "params \<Rightarrow> string \<Rightarrow> pyval \<Rightarrow> pyval" where
  \<comment> \<open>\<^verbatim>\<open>params.get(key, default)\<close>\<close>
  "pget p k d = (case p k of None \<Rightarrow> d | Some v \<Rightarrow> v)"

text \<open>The keyword arguments of \<^verbatim>\<open>trino.dbapi.connect\<close>, as \<^verbatim>\<open>create_connection\<close> passes them.\<close>

record connect_args =
  host :: pyval
  port :: pyval
  user :: pyval
  catalog :: pyval
  schema :: pyval
  auth :: "(pyval \<times> pyval) option"
  http_scheme :: pyval
  verify :: pyval
  session_properties :: pyval

text \<open>
  Exceptions. The driver has one exception class of its own, told apart by its message.
  A backend exception that no handler of the registry catches (from \<^verbatim>\<open>cursor()\<close> and
  \<^verbatim>\<open>close()\<close>) leaves the operation as it is; a missing dictionary key is a \<^verbatim>\<open>KeyError\<close>.
\<close>

datatype error =
    TrinoODBCError string
  | BackendException string
  | KeyError string

text \<open>
  Session and cursor objects of the client library are opaque references. What the
  library answers during one registry call is an input of that call: \<open>Inl msg\<close> and
  \<open>Some msg\<close> stand for an exception whose text is \<open>msg\<close>.
\<close>

type_synonym conn_obj = nat
type_synonym cur_obj = nat

datatype execute_call =
    Execute string
  | ExecuteParams string "pyval list"

type_synonym desc_col = "string \<times> pyval \<times> pyval \<times> pyval \<times> pyval \<times> pyval \<times> pyval"

record backend =
  trino_connect :: "connect_args \<Rightarrow> string + conn_obj"
  conn_cursor :: "conn_obj \<Rightarrow> string + cur_obj"
  conn_close :: "conn_obj \<Rightarrow> string option"
  cursor_close :: "cur_obj \<Rightarrow> string option"
  cursor_execute :: "cur_obj \<Rightarrow> execute_call \<Rightarrow> string option"
  cursor_description :: "cur_obj \<Rightarrow> desc_col list option"
  cursor_rowcount :: "cur_obj \<Rightarrow> int"
  cursor_fetchmany :: "cur_obj \<Rightarrow> int \<Rightarrow> string + pyval list list"

section \<open>The connection manager\<close>

text \<open>
  The three dictionaries of \<^verbatim>\<open>ConnectionManager\<close>. \<^verbatim>\<open>cursors\<close> is kept in insertion
  order, because \<^verbatim>\<open>close_connection\<close> iterates over it and may stop half-way.
\<close>

record registry =
  connections :: "string \<rightharpoonup> conn_obj"
  cursors :: "(string \<times> cur_obj) list"
  connection_params :: "string \<rightharpoonup> params"

definition init :: registry where
  "init = \<lparr>connections = Map.empty, cursors = [], connection_params = Map.empty\<rparr>"

definition make_connect_args :: "params \<Rightarrow> connect_args" where
  "make_connect_args params =
     \<lparr>host = pget params ''host'' (PStr ''localhost''),
      port = pget params ''port'' (PInt 8080),
      user = pget params ''user'' (PStr ''trino''),
      catalog = pget params ''catalog'' PNone,
      schema = pget params ''schema'' PNone,
      auth = (if truthy (pget params ''user'' PNone) \<and> truthy (pget params ''password'' PNone)
              then Some (pget params ''user'' PNone, pget params ''password'' PNone)
              else None),
      http_scheme = pget params ''http_scheme'' (PStr ''http''),
      verify = pget params ''verify'' (PBool True),
      session_properties = pget params ''session_properties'' (PDict [])\<rparr>"

definition create_connection ::
  "backend \<Rightarrow> uuid \<Rightarrow> params \<Rightarrow> registry \<Rightarrow> (error + string) \<times> registry" where
  "create_connection B u params s =
     (let connection_id = str_uuid u
      in case trino_connect B (make_connect_args params) of
           Inl msg \<Rightarrow> (Inl (TrinoODBCError (''Failed to connect to Trino: '' @ msg)), s)
         | Inr conn \<Rightarrow>
             (Inr connection_id,
              s\<lparr>connections := (connections s)(connection_id \<mapsto> conn),
                connection_params := (connection_params s)(connection_id \<mapsto> params)\<rparr>))"

text \<open>The loop of \<^verbatim>\<open>close_connection\<close> over \<^verbatim>\<open>cursors_to_close\<close>.\<close>

fun close_cursors ::
  "backend \<Rightarrow> string list \<Rightarrow> (string \<times> cur_obj) list \<Rightarrow> error option \<times> (string \<times> cur_obj) list" where
  "close_cursors B [] cs = (None, cs)"
| "close_cursors B (cursor_id # rest) cs =
     (case map_of cs cursor_id of
        None \<Rightarrow> (Some (KeyError cursor_id), cs)
      | Some cur \<Rightarrow>
          (case cursor_close B cur of
             Some msg \<Rightarrow> (Some (BackendException msg), cs)
           | None \<Rightarrow> close_cursors B rest (AList.delete cursor_id cs)))"

definition close_connection ::
  "backend \<Rightarrow> string \<Rightarrow> registry \<Rightarrow> (error + bool) \<times> registry" where
  "close_connection B connection_id s =
     (case connections s connection_id of
        Some conn \<Rightarrow>
          (let cursors_to_close =
                 map fst (filter (\<lambda>(cursor_id, cursor). prefix connection_id cursor_id) (cursors s))
           in case close_cursors B cursors_to_close (cursors s) of
                (Some e, cs) \<Rightarrow> (Inl e, s\<lparr>cursors := cs\<rparr>)
              | (None, cs) \<Rightarrow>
                  (case conn_close B conn of
                     Some msg \<Rightarrow> (Inl (BackendException msg), s\<lparr>cursors := cs\<rparr>)
                   | None \<Rightarrow>
                       (case connection_params s connection_id of
                          None \<Rightarrow>
                            (Inl (KeyError connection_id),
                             s\<lparr>cursors := cs, connections := (connections s)(connection_id := None)\<rparr>)
                        | Some _ \<Rightarrow>
                            (Inr True,
                             s\<lparr>cursors := cs,
                               connections := (connections s)(connection_id := None),
                               connection_params := (connection_params s)(connection_id := None)\<rparr>))))
      | None \<Rightarrow> (Inr False, s))"

definition create_cursor ::
  "backend \<Rightarrow> uuid \<Rightarrow> string \<Rightarrow> registry \<Rightarrow> (error + string) \<times> registry" where
  "create_cursor B u connection_id s =
     (case connections s connection_id of
        None \<Rightarrow> (Inl (TrinoODBCError (''Connection '' @ connection_id @ '' does not exist'')), s)
      | Some conn \<Rightarrow>
          (let cursor_id = connection_id @ ''_'' @ str_uuid u
           in case conn_cursor B conn of
                Inl msg \<Rightarrow> (Inl (BackendException msg), s)
              | Inr cur \<Rightarrow> (Inr cursor_id, s\<lparr>cursors := AList.update cursor_id cur (cursors s)\<rparr>)))"

definition close_cursor ::
  "backend \<Rightarrow> string \<Rightarrow> registry \<Rightarrow> (error + bool) \<times> registry" where
  "close_cursor B cursor_id s =
     (case map_of (cursors s) cursor_id of
        Some cur \<Rightarrow>
          (case cursor_close B cur of
             Some msg \<Rightarrow> (Inl (BackendException msg), s)
           | None \<Rightarrow> (Inr True, s\<lparr>cursors := AList.delete cursor_id (cursors s)\<rparr>))
      | None \<Rightarrow> (Inr False, s))"

text \<open>
  \<^verbatim>\<open>execute_query\<close>: the branch on \<^verbatim>\<open>if parameters:\<close> decides which call reaches the
  cursor.
\<close>

definition execute_call_of :: "string \<Rightarrow> pyval list option \<Rightarrow> execute_call" where
  "execute_call_of query parameters =
     (case parameters of
        Some (p # ps) \<Rightarrow> ExecuteParams query (p # ps)
      | _ \<Rightarrow> Execute query)"

record column =
  name :: string
  type_code :: pyval
  display_size :: pyval
  internal_size :: pyval
  precision :: pyval
  scale :: pyval
  null_ok :: pyval

fun column_of :: "desc_col \<Rightarrow> column" where
  "column_of (c0, c1, c2, c3, c4, c5, c6) =
     \<lparr>name = c0, type_code = c1, display_size = c2, internal_size = c3,
      precision = c4, scale = c5, null_ok = c6\<rparr>"

record execute_result =
  success :: bool
  columns :: "column list"
  rowcount :: int

definition execute_query ::
  "backend \<Rightarrow> string \<Rightarrow> string \<Rightarrow> pyval list option \<Rightarrow> registry
     \<Rightarrow> (error + execute_result) \<times> registry" where
  "execute_query B cursor_id query parameters s =
     (case map_of (cursors s) cursor_id of
        None \<Rightarrow> (Inl (TrinoODBCError (''Cursor '' @ cursor_id @ '' does not exist'')), s)
      | Some cursor \<Rightarrow>
          (case cursor_execute B cursor (execute_call_of query parameters) of
             Some msg \<Rightarrow> (Inl (TrinoODBCError (''Query execution error: '' @ msg)), s)
           | None \<Rightarrow>
               (let cols = (case cursor_description B cursor of
                              None \<Rightarrow> []
                            | Some d \<Rightarrow> if d \<noteq> [] then map column_of d else []);
                    rc = cursor_rowcount B cursor
                in (Inr \<lparr>success = True, columns = cols,
                         rowcount = (if rc \<ge> 0 then rc else - 1)\<rparr>, s))))"

text \<open>\<^verbatim>\<open>fetch_results\<close>: a row is a dictionary when the cursor has a description, a list otherwise.\<close>

datatype result_row =
    RowDict "(string \<times> pyval) list"
  | RowList "pyval list"

definition dict_of :: "(string \<times> pyval) list \<Rightarrow> (string \<times> pyval) list" where
  \<comment> \<open>\<^verbatim>\<open>dict(pairs)\<close>: a later pair replaces the value of an equal key\<close>
  "dict_of kvs = foldl (\<lambda>d (k, v). AList.update k v d) [] kvs"

record fetch_result =
  fetch_success :: bool
  rows :: "result_row list"
  has_more :: bool

definition fetch_results ::
  "backend \<Rightarrow> string \<Rightarrow> int \<Rightarrow> registry \<Rightarrow> (error + fetch_result) \<times> registry" where
  "fetch_results B cursor_id max_rows s =
     (case map_of (cursors s) cursor_id of
        None \<Rightarrow> (Inl (TrinoODBCError (''Cursor '' @ cursor_id @ '' does not exist'')), s)
      | Some cursor \<Rightarrow>
          (case cursor_fetchmany B cursor max_rows of
             Inl msg \<Rightarrow> (Inl (TrinoODBCError (''Error fetching results: '' @ msg)), s)
           | Inr fetched \<Rightarrow>
               (let result_rows =
                      (case cursor_description B cursor of
                         None \<Rightarrow> map RowList fetched
                       | Some d \<Rightarrow>
                           if d \<noteq> []
                           then (let column_names = map fst d
                                 in map (\<lambda>row. RowDict (dict_of (zip column_names row))) fetched)
                           else map RowList fetched);
                    more = (int (length fetched) \<ge> max_rows)
                in (Inr \<lparr>fetch_success = True, rows = result_rows, has_more = more\<rparr>, s))))"

definition get_connection_info :: "string \<Rightarrow> registry \<Rightarrow> (error + params) \<times> registry" where
  "get_connection_info connection_id s =
     (case connections s connection_id of
        None \<Rightarrow> (Inl (TrinoODBCError (''Connection '' @ connection_id @ '' does not exist'')), s)
      | Some _ \<Rightarrow>
          (case connection_params s connection_id of
             None \<Rightarrow> (Inl (KeyError connection_id), s)
           | Some params \<Rightarrow>
               (let info = params
                in (Inr (if info ''password'' \<noteq> None then info(''password'' \<mapsto> PStr ''***'') else info),
                    s))))"

section \<open>Sequences of requests\<close>

datatype op =
    OpenConnection backend uuid params
  | CloseConnection backend string
  | OpenCursor backend uuid string
  | CloseCursor backend string
  | ExecuteQuery backend string string "pyval list option"
  | FetchResults backend string int
  | GetConnectionInfo string

fun step :: "op \<Rightarrow> registry \<Rightarrow> registry" where
  "step (OpenConnection B u params) s = snd (create_connection B u params s)"
| "step (CloseConnection B connection_id) s = snd (close_connection B connection_id s)"
| "step (OpenCursor B u connection_id) s = snd (create_cursor B u connection_id s)"
| "step (CloseCursor B cursor_id) s = snd (close_cursor B cursor_id s)"
| "step (ExecuteQuery B cursor_id query parameters) s = snd (execute_query B cursor_id query parameters s)"
| "step (FetchResults B cursor_id max_rows) s = snd (fetch_results B cursor_id max_rows s)"
| "step (GetConnectionInfo connection_id) s = snd (get_connection_info connection_id s)"

fun run :: "op list \<Rightarrow> registry \<Rightarrow> registry" where
  "run [] s = s"
| "run (x # xs) s = run xs (step x s)"

text \<open>
  The handles that a sequence of requests gives back to its callers, and the UUIDs that
  were drawn for them.
\<close>

fun returned_connection :: "op \<Rightarrow> registry \<Rightarrow> string list" where
  "returned_connection (OpenConnection B u params) s =
     (case fst (create_connection B u params s) of Inr connection_id \<Rightarrow> [connection_id] | Inl e \<Rightarrow> [])"
| "returned_connection x s = []"

fun returned_cursor :: "op \<Rightarrow> registry \<Rightarrow> string list" where
  "returned_cursor (OpenCursor B u connection_id) s =
     (case fst (create_cursor B u connection_id s) of Inr cursor_id \<Rightarrow> [cursor_id] | Inl e \<Rightarrow> [])"
| "returned_cursor x s = []"

fun connection_handles :: "op list \<Rightarrow> registry \<Rightarrow> string list" where
  "connection_handles [] s = []"
| "connection_handles (x # xs) s = returned_connection x s @ connection_handles xs (step x s)"

fun cursor_handles :: "op list \<Rightarrow> registry \<Rightarrow> string list" where
  "cursor_handles [] s = []"
| "cursor_handles (x # xs) s = returned_cursor x s @ cursor_handles xs (step x s)"

fun connection_uuid :: "op \<Rightarrow> uuid list" where
  "connection_uuid (OpenConnection B u params) = [u]"
| "connection_uuid x = []"

fun cursor_uuid :: "op \<Rightarrow> uuid list" where
  "cursor_uuid (OpenCursor B u connection_id) = [u]"
| "cursor_uuid x = []"

definition connection_uuids :: "op list \<Rightarrow> uuid list" where
  "connection_uuids ops = concat (map connection_uuid ops)"

definition cursor_uuids :: "op list \<Rightarrow> uuid list" where
  "cursor_uuids ops = concat (map cursor_uuid ops)"

section \<open>Invariants of the registry\<close>

text \<open>
  A cursor belongs to a connection when its handle starts with the connection's handle
  and an underscore, which is how \<^verbatim>\<open>create_cursor\<close> builds it; \<^verbatim>\<open>close_connection\<close>
  selects the cursors to close by the prefix alone.
\<close>

definition has_owner :: "registry \<Rightarrow> string \<Rightarrow> bool" where
  "has_owner s cursor_id =
     (\<exists>connection_id \<in> dom (connections s). prefix (connection_id @ ''_'') cursor_id)"

definition cursors_owned :: "registry \<Rightarrow> bool" where
  "cursors_owned s =
     (\<forall>cursor_id \<in> fst ` set (cursors s).
        \<exists>!connection_id. connection_id \<in> dom (connections s) \<and> prefix (connection_id @ ''_'') cursor_id)"

definition handles36 :: "registry \<Rightarrow> bool" where
  "handles36 s = (\<forall>connection_id \<in> dom (connections s). length connection_id = 36)"

definition same_keys :: "registry \<Rightarrow> bool" where
  "same_keys s = (dom (connections s) = dom (connection_params s))"

section \<open>Sample inputs\<close>

text \<open>A client library that accepts every call, and two version-4 UUIDs.\<close>

definition ok_backend :: backend where
  "ok_backend =
     \<lparr>trino_connect = (\<lambda>args. Inr 0),
      conn_cursor = (\<lambda>conn. Inr 0),
      conn_close = (\<lambda>conn. None),
      cursor_close = (\<lambda>cur. None),
      cursor_execute = (\<lambda>cur call. None),
      cursor_description = (\<lambda>cur. None),
      cursor_rowcount = (\<lambda>cur. - 1),
      cursor_fetchmany = (\<lambda>cur n. Inr [])\<rparr>"

definition uuid_a :: uuid where
  "uuid_a = 0x123e4567e89b42d3a456426614174000"

definition uuid_b :: uuid where
  "uuid_b = 0x9b2c1f04d5e64a7b8c3d0e1f2a3b4c5d"

definition alice :: params where
  "alice = [''host'' \<mapsto> PStr ''db1'', ''port'' \<mapsto> PInt 8080, ''user'' \<mapsto> PStr ''alice'',
            ''password'' \<mapsto> PStr ''secret'']"

definition one_cursor :: registry where
  \<comment> \<open>one connection with one cursor under it\<close>
  "one_cursor =
     run [OpenConnection ok_backend uuid_a alice, OpenCursor ok_backend uuid_b (str_uuid uuid_a)] init"

definition failing_backend :: backend where
  "failing_backend =
     ok_backend\<lparr>trino_connect := (\<lambda>args. Inl ''refused''),
                cursor_execute := (\<lambda>cur call. Some ''syntax error'')\<rparr>"


definition params_only_backend :: backend where
  \<comment> \<open>a cursor that rejects a call without parameters\<close>
  "params_only_backend =
     ok_backend\<lparr>cursor_execute :=
                  (\<lambda>cur call. case call of Execute query \<Rightarrow> Some ''no parameters''
                                | ExecuteParams query parameters \<Rightarrow> None)\<rparr>"


section \<open>The text of a UUID determines it\<close>

lemma length_hex32: "length (hex32 u) = 32"
  by (simp add: hex32_def)

lemma length_str_uuid: "length (str_uuid u) = 36"
  by (simp add: str_uuid_def Let_def length_hex32)

lemma hex_digit_inj: "a < 16 \<Longrightarrow> b < 16 \<Longrightarrow> hex_digit a = hex_digit b \<Longrightarrow> a = b"
proof -
  assume a: "a < 16" and b: "b < 16" and e: "hex_digit a = hex_digit b"
  have d: "distinct ''0123456789abcdef''" by simp
  have l: "length ''0123456789abcdef'' = 16" by simp
  from e show "a = b"
    unfolding hex_digit_def using nth_eq_iff_index_eq [OF d, of a b] a b l by simp
qed

lemma nibble_lt: "nibble u i < 16"
proof -
  have "drop_bit (4 * (31 - i)) u AND 15 \<le> (15 :: uuid)"
    by (rule word_and_le1)
  then have "unat (drop_bit (4 * (31 - i)) u AND 15) \<le> 15"
    by (simp add: word_le_nat_alt)
  then show ?thesis by (simp add: nibble_def)
qed

lemma hex32_nibbles: "hex32 u = hex32 v \<Longrightarrow> i < 32 \<Longrightarrow> nibble u i = nibble v i"
proof -
  assume e: "hex32 u = hex32 v" and i: "i < 32"
  from e have "\<forall>x\<in>set [0..<32]. hex_digit (nibble u x) = hex_digit (nibble v x)"
    unfolding hex32_def by (simp only: map_eq_conv)
  with i have "hex_digit (nibble u i) = hex_digit (nibble v i)" by simp
  then show ?thesis using hex_digit_inj nibble_lt by blast
qed

lemma bit_15: "bit (15 :: uuid) r \<longleftrightarrow> r < 4"
proof -
  have "bit (mask 4 :: uuid) r \<longleftrightarrow> r < 4" by (auto simp: bit_mask_iff)
  moreover have "(mask 4 :: uuid) = 15" by (simp add: mask_eq_exp_minus_1)
  ultimately show ?thesis by (simp only:)
qed

lemma nibbles_eq: "(\<And>i. i < 32 \<Longrightarrow> nibble u i = nibble v i) \<Longrightarrow> u = v"
proof (rule bit_word_eqI)
  fix n
  assume h: "\<And>i. i < 32 \<Longrightarrow> nibble u i = nibble v i" and n: "n < LENGTH(128)"
  define q where "q = n div 4"
  define r where "r = n mod 4"
  have q: "q < 32" and r: "r < 4" and nqr: "n = 4 * q + r" using n by (auto simp: q_def r_def)
  have "nibble u (31 - q) = nibble v (31 - q)" using h q by simp
  moreover have "31 - (31 - q) = q" using q by simp
  ultimately have "unat (drop_bit (4 * q) u AND 15) = unat (drop_bit (4 * q) v AND 15)"
    by (simp add: nibble_def)
  then have "drop_bit (4 * q) u AND 15 = drop_bit (4 * q) v AND 15"
    by (simp add: word_unat_eq_iff)
  then have "bit (drop_bit (4 * q) u AND 15) r = bit (drop_bit (4 * q) v AND 15) r" by simp
  then show "bit u n = bit v n"
    using r bit_15 [of r] by (simp add: bit_and_iff bit_drop_bit_eq nqr)
qed

lemma hex32_inj: "hex32 u = hex32 v \<Longrightarrow> u = v"
  by (rule nibbles_eq) (rule hex32_nibbles)

lemma split5: "take 8 h @ take 4 (drop 8 h) @ take 4 (drop 12 h) @ take 4 (drop 16 h) @ drop 20 h = h"
proof -
  have a: "take 4 (drop 16 h) @ drop 20 h = drop 16 h"
    using append_take_drop_id [of 4 "drop 16 h"] by simp
  have b: "take 4 (drop 12 h) @ drop 16 h = drop 12 h"
    using append_take_drop_id [of 4 "drop 12 h"] by simp
  have c: "take 4 (drop 8 h) @ drop 12 h = drop 8 h"
    using append_take_drop_id [of 4 "drop 8 h"] by simp
  show ?thesis by (simp only: a b c append_take_drop_id)
qed

lemma str_uuid_inj: "str_uuid u = str_uuid v \<Longrightarrow> u = v"
proof -
  assume e: "str_uuid u = str_uuid v"
  let ?h = "hex32 u" and ?k = "hex32 v"
  from e have "take 8 ?h = take 8 ?k \<and> take 4 (drop 8 ?h) = take 4 (drop 8 ?k)
      \<and> take 4 (drop 12 ?h) = take 4 (drop 12 ?k) \<and> take 4 (drop 16 ?h) = take 4 (drop 16 ?k)
      \<and> drop 20 ?h = drop 20 ?k"
    by (simp add: str_uuid_def Let_def length_hex32)
  then have "take 8 ?h @ take 4 (drop 8 ?h) @ take 4 (drop 12 ?h) @ take 4 (drop 16 ?h) @ drop 20 ?h
    = take 8 ?k @ take 4 (drop 8 ?k) @ take 4 (drop 12 ?k) @ take 4 (drop 16 ?k) @ drop 20 ?k"
    by (simp only:)
  then have "?h = ?k" by (simp only: split5)
  then show ?thesis by (rule hex32_inj)
qed

lemma cursor_handle_inj:
  "c @ ''_'' @ str_uuid u = c' @ ''_'' @ str_uuid u' \<Longrightarrow> u = u'"
proof -
  assume "c @ ''_'' @ str_uuid u = c' @ ''_'' @ str_uuid u'"
  then have "(c @ ''_'') @ str_uuid u = (c' @ ''_'') @ str_uuid u'" by simp
  then have "str_uuid u = str_uuid u'"
    using append_eq_append_conv [of "c @ ''_''" "c' @ ''_''" "str_uuid u" "str_uuid u'"]
    by (simp add: length_str_uuid)
  then show ?thesis by (rule str_uuid_inj)
qed

section \<open>Cascade and invariants\<close>

lemma close_cursors_sub: "close_cursors B ks cs = (r, cs') \<Longrightarrow> set cs' \<subseteq> set cs"
proof (induction ks arbitrary: cs)
  case Nil
  then show ?case by simp
next
  case (Cons k ks)
  show ?case
  proof (cases "map_of cs k")
    case None
    with Cons.prems show ?thesis by simp
  next
    case (Some cur)
    show ?thesis
    proof (cases "cursor_close B cur")
      case None
      with Some Cons.prems have "close_cursors B ks (AList.delete k cs) = (r, cs')" by simp
      then have "set cs' \<subseteq> set (AList.delete k cs)" by (rule Cons.IH)
      then show ?thesis by (auto simp: AList.delete_eq)
    next
      case (Some msg)
      with \<open>map_of cs k = Some cur\<close> Cons.prems show ?thesis by simp
    qed
  qed
qed

lemma close_cursors_all:
  "close_cursors B ks cs = (None, cs') \<Longrightarrow> fst ` set cs' \<inter> set ks = {}"
proof (induction ks arbitrary: cs)
  case Nil
  then show ?case by simp
next
  case (Cons k ks)
  from Cons.prems obtain cur where cur: "map_of cs k = Some cur"
    by (cases "map_of cs k") auto
  with Cons.prems have cl: "cursor_close B cur = None"
    by (cases "cursor_close B cur") auto
  with cur Cons.prems have rest: "close_cursors B ks (AList.delete k cs) = (None, cs')" by simp
  then have a: "fst ` set cs' \<inter> set ks = {}" by (rule Cons.IH)
  from rest have "set cs' \<subseteq> set (AList.delete k cs)" by (rule close_cursors_sub)
  then have b: "k \<notin> fst ` set cs'" by (auto simp: AList.delete_eq)
  from a b show ?case by auto
qed

lemma closed_prefix_gone:
  assumes "close_cursors B (map fst (filter (\<lambda>(cursor_id, cursor). prefix c cursor_id) cs)) cs = (None, cs')"
    and "prefix c k"
  shows "k \<notin> fst ` set cs'"
proof
  assume k: "k \<in> fst ` set cs'"
  from assms(1) have "set cs' \<subseteq> set cs" by (rule close_cursors_sub)
  with k have "k \<in> fst ` set cs" by auto
  with assms(2) have "k \<in> set (map fst (filter (\<lambda>(cursor_id, cursor). prefix c cursor_id) cs))"
    by force
  with close_cursors_all [OF assms(1)] k show False by auto
qed

lemma close_connection_cases:
  assumes "close_connection B c s = (r, s')"
  obtains (unknown) "connections s c = None" "s' = s" "r = Inr False"
    | (failed) cs' where "connections s c \<noteq> None" "s' = s\<lparr>cursors := cs'\<rparr>" "set cs' \<subseteq> set (cursors s)"
        "\<exists>e. r = Inl e"
    | (nokey) cs' where "connections s c \<noteq> None" "connection_params s c = None"
        "s' = s\<lparr>cursors := cs', connections := (connections s)(c := None)\<rparr>"
        "set cs' \<subseteq> set (cursors s)" "\<forall>k. prefix c k \<longrightarrow> k \<notin> fst ` set cs'" "\<exists>e. r = Inl e"
    | (closed) cs' where "connections s c \<noteq> None" "connection_params s c \<noteq> None"
        "s' = s\<lparr>cursors := cs', connections := (connections s)(c := None),
                connection_params := (connection_params s)(c := None)\<rparr>"
        "set cs' \<subseteq> set (cursors s)" "\<forall>k. prefix c k \<longrightarrow> k \<notin> fst ` set cs'" "r = Inr True"
proof (cases "connections s c")
  case None
  with assms have "s' = s" "r = Inr False" by (auto simp: close_connection_def)
  with None show ?thesis by (rule unknown)
next
  case (Some conn)
  let ?ks = "map fst (filter (\<lambda>(cursor_id, cursor). prefix c cursor_id) (cursors s))"
  obtain e cs' where cc: "close_cursors B ?ks (cursors s) = (e, cs')" by (cases "close_cursors B ?ks (cursors s)")
  then have sub: "set cs' \<subseteq> set (cursors s)" by (rule close_cursors_sub)
  show ?thesis
  proof (cases e)
    case (Some err)
    with cc \<open>connections s c = Some conn\<close> assms have "s' = s\<lparr>cursors := cs'\<rparr>" "\<exists>e. r = Inl e"
      by (auto simp: close_connection_def Let_def)
    with sub \<open>connections s c = Some conn\<close> show ?thesis by (intro failed) auto
  next
    case None
    with cc have gone: "\<forall>k. prefix c k \<longrightarrow> k \<notin> fst ` set cs'"
      using closed_prefix_gone by blast
    show ?thesis
    proof (cases "conn_close B conn")
      case (Some msg)
      with None cc \<open>connections s c = Some conn\<close> assms have "s' = s\<lparr>cursors := cs'\<rparr>" "\<exists>e. r = Inl e"
        by (auto simp: close_connection_def Let_def)
      with sub \<open>connections s c = Some conn\<close> show ?thesis by (intro failed) auto
    next
      case cl: None
      show ?thesis
      proof (cases "connection_params s c")
        case None
        with cl \<open>e = None\<close> cc \<open>connections s c = Some conn\<close> assms
        have "s' = s\<lparr>cursors := cs', connections := (connections s)(c := None)\<rparr>" "\<exists>e. r = Inl e"
          by (auto simp: close_connection_def Let_def)
        with sub gone None \<open>connections s c = Some conn\<close> show ?thesis by (intro nokey) auto
      next
        case (Some p)
        with cl \<open>e = None\<close> cc \<open>connections s c = Some conn\<close> assms
        have "s' = s\<lparr>cursors := cs', connections := (connections s)(c := None),
                connection_params := (connection_params s)(c := None)\<rparr>" "r = Inr True"
          by (auto simp: close_connection_def Let_def)
        with sub gone Some \<open>connections s c = Some conn\<close> show ?thesis by (intro closed) auto
      qed
    qed
  qed
qed


lemma execute_query_state: "snd (execute_query B k q ps s) = s"
  by (simp add: execute_query_def Let_def split: option.splits)

lemma fetch_results_state: "snd (fetch_results B k n s) = s"
  by (simp add: fetch_results_def Let_def split: option.splits sum.splits)

lemma get_connection_info_state: "snd (get_connection_info h s) = s"
  by (simp add: get_connection_info_def Let_def split: option.splits)

lemma create_connection_cases:
  obtains (failed) "snd (create_connection B u p s) = s" "\<exists>e. fst (create_connection B u p s) = Inl e"
    | (opened) conn where
        "snd (create_connection B u p s) =
           s\<lparr>connections := (connections s)(str_uuid u \<mapsto> conn),
             connection_params := (connection_params s)(str_uuid u \<mapsto> p)\<rparr>"
        "fst (create_connection B u p s) = Inr (str_uuid u)"
  by (cases "trino_connect B (make_connect_args p)") (auto simp: create_connection_def Let_def)

lemma create_cursor_cases:
  obtains (failed) "snd (create_cursor B u c s) = s" "\<exists>e. fst (create_cursor B u c s) = Inl e"
    | (opened) cur where "connections s c \<noteq> None"
        "snd (create_cursor B u c s) = s\<lparr>cursors := AList.update (c @ ''_'' @ str_uuid u) cur (cursors s)\<rparr>"
        "fst (create_cursor B u c s) = Inr (c @ ''_'' @ str_uuid u)"
proof (cases "connections s c")
  case None
  then show ?thesis by (intro failed) (auto simp: create_cursor_def)
next
  case (Some conn)
  then show ?thesis
    by (cases "conn_cursor B conn") (auto simp: create_cursor_def Let_def intro: failed opened)
qed

lemma close_cursor_cases:
  obtains (kept) "snd (close_cursor B k s) = s"
    | (closed) "snd (close_cursor B k s) = s\<lparr>cursors := AList.delete k (cursors s)\<rparr>"
        "fst (close_cursor B k s) = Inr True"
proof (cases "map_of (cursors s) k")
  case None
  then show ?thesis by (intro kept) (simp add: close_cursor_def)
next
  case (Some cur)
  then show ?thesis
    by (cases "cursor_close B cur") (auto simp: close_cursor_def intro: kept closed)
qed

lemma keys_update: "fst ` set (AList.update k v al) = insert k (fst ` set al)"
  using dom_update [of k v al] by (simp add: dom_map_of_conv_image_fst)

lemma keys_delete: "fst ` set (AList.delete k al) = fst ` set al - {k}"
  by (auto simp: AList.delete_eq)

lemma prefix_underscore: "prefix (c @ ''_'') k \<Longrightarrow> prefix c k"
  by (auto simp: prefix_def)

lemma step_owner:
  assumes "\<forall>k \<in> fst ` set (cursors s). has_owner s k"
  shows "\<forall>k \<in> fst ` set (cursors (step x s)). has_owner (step x s) k"
proof (cases x)
  case (OpenConnection B u p)
  show ?thesis
    using assms unfolding OpenConnection step.simps
    by (cases rule: create_connection_cases [of B u p s]) (auto simp: has_owner_def)
next
  case (CloseConnection B c)
  obtain r s' where rs: "close_connection B c s = (r, s')" by (cases "close_connection B c s")
  from rs have "\<forall>k \<in> fst ` set (cursors s'). has_owner s' k"
  proof (cases rule: close_connection_cases)
    case unknown
    with assms show ?thesis by simp
  next
    case (failed cs')
    with assms show ?thesis by (auto simp: has_owner_def)
  next
    case (nokey cs')
    show ?thesis
    proof
      fix k assume k: "k \<in> fst ` set (cursors s')"
      with nokey have kk: "k \<in> fst ` set (cursors s)" "\<not> prefix c k" by auto
      with assms have "has_owner s k" by blast
      then obtain c' where c': "c' \<in> dom (connections s)" "prefix (c' @ ''_'') k"
        unfolding has_owner_def by blast
      with kk have "c' \<noteq> c" using prefix_underscore by blast
      with c' nokey show "has_owner s' k" by (auto simp: has_owner_def)
    qed
  next
    case (closed cs')
    show ?thesis
    proof
      fix k assume k: "k \<in> fst ` set (cursors s')"
      with closed have kk: "k \<in> fst ` set (cursors s)" "\<not> prefix c k" by auto
      with assms have "has_owner s k" by blast
      then obtain c' where c': "c' \<in> dom (connections s)" "prefix (c' @ ''_'') k"
        unfolding has_owner_def by blast
      with kk have "c' \<noteq> c" using prefix_underscore by blast
      with c' closed show "has_owner s' k" by (auto simp: has_owner_def)
    qed
  qed
  with rs show ?thesis unfolding CloseConnection by simp
next
  case (OpenCursor B u c)
  show ?thesis
  proof (cases rule: create_cursor_cases [of B u c s])
    case failed
    with assms show ?thesis unfolding OpenCursor by simp
  next
    case (opened cur)
    have "prefix (c @ ''_'') (c @ ''_'' @ str_uuid u)" by simp
    with opened(1) have "has_owner s (c @ ''_'' @ str_uuid u)"
      unfolding has_owner_def by blast
    with assms opened(2) show ?thesis
      unfolding OpenCursor by (auto simp: has_owner_def keys_update)
  qed
next
  case (CloseCursor B k)
  show ?thesis
    using assms unfolding CloseCursor step.simps
    by (cases rule: close_cursor_cases [of B k s]) (auto simp: has_owner_def keys_delete)
next
  case (ExecuteQuery B k q ps)
  with assms show ?thesis by (simp add: execute_query_state)
next
  case (FetchResults B k n)
  with assms show ?thesis by (simp add: fetch_results_state)
next
  case (GetConnectionInfo h)
  with assms show ?thesis by (simp add: get_connection_info_state)
qed

lemma step_handles36: "handles36 s \<Longrightarrow> handles36 (step x s)"
proof (cases x)
  case (OpenConnection B u p)
  assume "handles36 s"
  then show ?thesis unfolding OpenConnection step.simps
    by (cases rule: create_connection_cases [of B u p s]) (auto simp: handles36_def length_str_uuid)
next
  case (CloseConnection B c)
  assume h: "handles36 s"
  obtain r s' where rs: "close_connection B c s = (r, s')" by (cases "close_connection B c s")
  from rs have "handles36 s'"
    by (cases rule: close_connection_cases) (use h in \<open>auto simp: handles36_def\<close>)
  with rs show ?thesis unfolding CloseConnection by simp
next
  case (OpenCursor B u c)
  assume "handles36 s"
  then show ?thesis unfolding OpenCursor step.simps
    by (cases rule: create_cursor_cases [of B u c s]) (auto simp: handles36_def)
next
  case (CloseCursor B k)
  assume "handles36 s"
  then show ?thesis unfolding CloseCursor step.simps
    by (cases rule: close_cursor_cases [of B k s]) (auto simp: handles36_def)
next
  case (ExecuteQuery B k q ps)
  assume "handles36 s"
  with ExecuteQuery show ?thesis by (simp add: execute_query_state)
next
  case (FetchResults B k n)
  assume "handles36 s"
  with FetchResults show ?thesis by (simp add: fetch_results_state)
next
  case (GetConnectionInfo h)
  assume "handles36 s"
  with GetConnectionInfo show ?thesis by (simp add: get_connection_info_state)
qed

lemma step_same_keys: "same_keys s \<Longrightarrow> same_keys (step x s)"
proof (cases x)
  case (OpenConnection B u p)
  assume "same_keys s"
  then show ?thesis unfolding OpenConnection step.simps
    by (cases rule: create_connection_cases [of B u p s]) (auto simp: same_keys_def)
next
  case (CloseConnection B c)
  assume h: "same_keys s"
  obtain r s' where rs: "close_connection B c s = (r, s')" by (cases "close_connection B c s")
  from rs have "same_keys s'"
    by (cases rule: close_connection_cases) (use h in \<open>auto simp: same_keys_def\<close>)
  with rs show ?thesis unfolding CloseConnection by simp
next
  case (OpenCursor B u c)
  assume "same_keys s"
  then show ?thesis unfolding OpenCursor step.simps
    by (cases rule: create_cursor_cases [of B u c s]) (auto simp: same_keys_def)
next
  case (CloseCursor B k)
  assume "same_keys s"
  then show ?thesis unfolding CloseCursor step.simps
    by (cases rule: close_cursor_cases [of B k s]) (auto simp: same_keys_def)
next
  case (ExecuteQuery B k q ps)
  assume "same_keys s"
  with ExecuteQuery show ?thesis by (simp add: execute_query_state)
next
  case (FetchResults B k n)
  assume "same_keys s"
  with FetchResults show ?thesis by (simp add: fetch_results_state)
next
  case (GetConnectionInfo h)
  assume "same_keys s"
  with GetConnectionInfo show ?thesis by (simp add: get_connection_info_state)
qed

lemma run_owner:
  "\<forall>k \<in> fst ` set (cursors s). has_owner s k \<Longrightarrow> \<forall>k \<in> fst ` set (cursors (run ops s)). has_owner (run ops s) k"
  by (induction ops arbitrary: s) (simp_all add: step_owner)

lemma run_handles36: "handles36 s \<Longrightarrow> handles36 (run ops s)"
  by (induction ops arbitrary: s) (simp_all add: step_handles36)

lemma run_same_keys: "same_keys s \<Longrightarrow> same_keys (run ops s)"
  by (induction ops arbitrary: s) (simp_all add: step_same_keys)

lemma owner_unique:
  assumes "handles36 s" "c1 \<in> dom (connections s)" "c2 \<in> dom (connections s)"
    "prefix (c1 @ ''_'') k" "prefix (c2 @ ''_'') k"
  shows "c1 = c2"
proof -
  from assms(1-3) have l: "length c1 = length c2" by (auto simp: handles36_def)
  from assms(4) obtain r1 where "k = (c1 @ ''_'') @ r1" by (rule prefixE)
  moreover from assms(5) obtain r2 where "k = (c2 @ ''_'') @ r2" by (rule prefixE)
  ultimately have "c1 @ ''_'' @ r1 = c2 @ ''_'' @ r2" by simp
  with l show ?thesis by simp
qed

lemma reachable_owned: "cursors_owned (run ops init)"
proof -
  have a: "handles36 (run ops init)" by (rule run_handles36) (simp add: handles36_def init_def)
  have b: "\<forall>k \<in> fst ` set (cursors (run ops init)). has_owner (run ops init) k"
    by (rule run_owner) (simp add: init_def)
  show ?thesis
    unfolding cursors_owned_def
  proof
    fix k assume "k \<in> fst ` set (cursors (run ops init))"
    with b have "has_owner (run ops init) k" by blast
    then obtain c where c: "c \<in> dom (connections (run ops init))" "prefix (c @ ''_'') k"
      unfolding has_owner_def by blast
    then show "\<exists>!c. c \<in> dom (connections (run ops init)) \<and> prefix (c @ ''_'') k"
      using owner_unique [OF a] by blast
  qed
qed


section \<open>Handles given out\<close>

lemma returned_connection_sub:
  "set (returned_connection x s) \<subseteq> str_uuid ` set (connection_uuid x)"
proof (cases x)
  case (OpenConnection B u p)
  show ?thesis unfolding OpenConnection
    by (cases rule: create_connection_cases [of B u p s]) auto
qed simp_all

lemma returned_connection_distinct: "distinct (returned_connection x s)"
  by (cases x) (simp_all split: sum.splits)

lemma connection_handles_sub:
  "set (connection_handles ops s) \<subseteq> str_uuid ` set (connection_uuids ops)"
proof (induction ops arbitrary: s)
  case Nil
  then show ?case by simp
next
  case (Cons x xs)
  from Cons.IH [of "step x s"] returned_connection_sub [of x s]
  show ?case by (simp add: connection_uuids_def image_Un) blast
qed

lemma connection_handles_distinct:
  "distinct (connection_uuids ops) \<Longrightarrow> distinct (connection_handles ops s)"
proof (induction ops arbitrary: s)
  case Nil
  then show ?case by simp
next
  case (Cons x xs)
  from Cons.prems have d: "distinct (connection_uuids xs)"
    and disj: "set (connection_uuid x) \<inter> set (connection_uuids xs) = {}"
    by (auto simp: connection_uuids_def)
  from d have "distinct (connection_handles xs (step x s))" by (rule Cons.IH)
  moreover have "set (returned_connection x s) \<inter> set (connection_handles xs (step x s)) = {}"
  proof (rule ccontr)
    assume "\<not> ?thesis"
    then obtain h where h: "h \<in> set (returned_connection x s)" "h \<in> set (connection_handles xs (step x s))"
      by auto
    from h(1) returned_connection_sub obtain u where u: "u \<in> set (connection_uuid x)" "h = str_uuid u"
      by blast
    from h(2) connection_handles_sub obtain u' where u': "u' \<in> set (connection_uuids xs)" "h = str_uuid u'"
      by blast
    from u(2) u'(2) have "u = u'" by (simp add: str_uuid_inj)
    with u(1) u'(1) disj show False by auto
  qed
  ultimately show ?case by (simp add: returned_connection_distinct)
qed

lemma returned_cursor_sub:
  "set (returned_cursor x s) \<subseteq> {h. \<exists>c u. u \<in> set (cursor_uuid x) \<and> h = c @ ''_'' @ str_uuid u}"
proof (cases x)
  case (OpenCursor B u c)
  show ?thesis unfolding OpenCursor
    by (cases rule: create_cursor_cases [of B u c s]) auto
qed simp_all

lemma returned_cursor_distinct: "distinct (returned_cursor x s)"
  by (cases x) (simp_all split: sum.splits)

lemma cursor_handles_sub:
  "set (cursor_handles ops s) \<subseteq> {h. \<exists>c u. u \<in> set (cursor_uuids ops) \<and> h = c @ ''_'' @ str_uuid u}"
proof (induction ops arbitrary: s)
  case Nil
  then show ?case by simp
next
  case (Cons x xs)
  from Cons.IH [of "step x s"] returned_cursor_sub [of x s]
  show ?case by (fastforce simp: cursor_uuids_def)
qed

lemma cursor_handles_distinct:
  "distinct (cursor_uuids ops) \<Longrightarrow> distinct (cursor_handles ops s)"
proof (induction ops arbitrary: s)
  case Nil
  then show ?case by simp
next
  case (Cons x xs)
  from Cons.prems have d: "distinct (cursor_uuids xs)"
    and disj: "set (cursor_uuid x) \<inter> set (cursor_uuids xs) = {}"
    by (auto simp: cursor_uuids_def)
  from d have "distinct (cursor_handles xs (step x s))" by (rule Cons.IH)
  moreover have "set (returned_cursor x s) \<inter> set (cursor_handles xs (step x s)) = {}"
  proof (rule ccontr)
    assume "\<not> ?thesis"
    then obtain h where h: "h \<in> set (returned_cursor x s)" "h \<in> set (cursor_handles xs (step x s))"
      by auto
    from h(1) returned_cursor_sub obtain c u where u: "u \<in> set (cursor_uuid x)" "h = c @ ''_'' @ str_uuid u"
      by blast
    from h(2) cursor_handles_sub obtain c' u' where u': "u' \<in> set (cursor_uuids xs)" "h = c' @ ''_'' @ str_uuid u'"
      by blast
    from u(2) u'(2) have "u = u'" using cursor_handle_inj by blast
    with u(1) u'(1) disj show False by auto
  qed
  ultimately show ?case by (simp add: returned_cursor_distinct)
qed


lemma step_connections_sub:
  "dom (connections (step x s)) \<subseteq> dom (connections s) \<union> str_uuid ` set (connection_uuid x)"
proof (cases x)
  case (OpenConnection B u p)
  show ?thesis unfolding OpenConnection step.simps
    by (cases rule: create_connection_cases [of B u p s]) auto
next
  case (CloseConnection B c)
  obtain r s' where rs: "close_connection B c s = (r, s')" by (cases "close_connection B c s")
  from rs have "dom (connections s') \<subseteq> dom (connections s)"
    by (cases rule: close_connection_cases) auto
  with rs show ?thesis unfolding CloseConnection by simp
next
  case (OpenCursor B u c)
  show ?thesis unfolding OpenCursor step.simps
    by (cases rule: create_cursor_cases [of B u c s]) auto
next
  case (CloseCursor B k)
  show ?thesis unfolding CloseCursor step.simps
    by (cases rule: close_cursor_cases [of B k s]) auto
qed (simp_all add: execute_query_state fetch_results_state get_connection_info_state)

lemma run_connections_sub:
  "dom (connections (run ops s)) \<subseteq> dom (connections s) \<union> str_uuid ` set (connection_uuids ops)"
proof (induction ops arbitrary: s)
  case Nil
  then show ?case by simp
next
  case (Cons x xs)
  from Cons.IH [of "step x s"] step_connections_sub [of x s]
  show ?case by (simp add: connection_uuids_def image_Un) blast
qed

lemma step_cursors_sub:
  "fst ` set (cursors (step x s))
     \<subseteq> fst ` set (cursors s) \<union> {h. \<exists>c u. u \<in> set (cursor_uuid x) \<and> h = c @ ''_'' @ str_uuid u}"
proof (cases x)
  case (OpenConnection B u p)
  show ?thesis unfolding OpenConnection step.simps
    by (cases rule: create_connection_cases [of B u p s]) auto
next
  case (CloseConnection B c)
  obtain r s' where rs: "close_connection B c s = (r, s')" by (cases "close_connection B c s")
  from rs have "fst ` set (cursors s') \<subseteq> fst ` set (cursors s)"
    by (cases rule: close_connection_cases) auto
  with rs show ?thesis unfolding CloseConnection by auto
next
  case (OpenCursor B u c)
  show ?thesis unfolding OpenCursor step.simps
    by (cases rule: create_cursor_cases [of B u c s]) (auto simp: keys_update)
next
  case (CloseCursor B k)
  show ?thesis unfolding CloseCursor step.simps
    by (cases rule: close_cursor_cases [of B k s]) (auto simp: keys_delete)
qed (simp_all add: execute_query_state fetch_results_state get_connection_info_state)

lemma run_cursors_sub:
  "fst ` set (cursors (run ops s))
     \<subseteq> fst ` set (cursors s) \<union> {h. \<exists>c u. u \<in> set (cursor_uuids ops) \<and> h = c @ ''_'' @ str_uuid u}"
proof (induction ops arbitrary: s)
  case Nil
  then show ?case by simp
next
  case (Cons x xs)
  have "fst ` set (cursors (run xs (step x s)))
      \<subseteq> fst ` set (cursors (step x s)) \<union> {h. \<exists>c u. u \<in> set (cursor_uuids xs) \<and> h = c @ ''_'' @ str_uuid u}"
    by (rule Cons.IH)
  moreover note step_cursors_sub [of x s]
  moreover have "set (cursor_uuids (x # xs)) = set (cursor_uuid x) \<union> set (cursor_uuids xs)"
    by (simp add: cursor_uuids_def)
  ultimately show ?case by (simp only: run.simps) blast
qed

lemma fresh_connection_handle:
  assumes "distinct (connection_uuids (ops @ [OpenConnection B u p]))"
  shows "str_uuid u \<notin> dom (connections (run ops init))"
proof
  assume "str_uuid u \<in> dom (connections (run ops init))"
  with run_connections_sub [of ops init] have "str_uuid u \<in> str_uuid ` set (connection_uuids ops)"
    by (auto simp: init_def)
  then obtain u' where "u' \<in> set (connection_uuids ops)" "str_uuid u = str_uuid u'" by blast
  then have "u \<in> set (connection_uuids ops)" using str_uuid_inj by blast
  with assms show False by (simp add: connection_uuids_def)
qed

lemma fresh_cursor_handle:
  assumes "distinct (cursor_uuids (ops @ [OpenCursor B u c]))"
  shows "c @ ''_'' @ str_uuid u \<notin> fst ` set (cursors (run ops init))"
proof
  assume "c @ ''_'' @ str_uuid u \<in> fst ` set (cursors (run ops init))"
  with run_cursors_sub [of ops init]
  obtain c' u' where "u' \<in> set (cursor_uuids ops)" "c @ ''_'' @ str_uuid u = c' @ ''_'' @ str_uuid u'"
    by (auto simp: init_def)
  then have "u \<in> set (cursor_uuids ops)" using cursor_handle_inj by blast
  with assms show False by (simp add: cursor_uuids_def)
qed

section \<open>Sample runs\<close>

lemma uuid_a_neq_b: "uuid_a \<noteq> uuid_b"
  by (simp add: uuid_a_def uuid_b_def)

lemma one_cursor_eq:
  "one_cursor =
     \<lparr>connections = [str_uuid uuid_a \<mapsto> 0],
      cursors = [(str_uuid uuid_a @ ''_'' @ str_uuid uuid_b, 0)],
      connection_params = [str_uuid uuid_a \<mapsto> alice]\<rparr>"
  by (simp add: one_cursor_def create_connection_def create_cursor_def ok_backend_def init_def Let_def)

lemma str_uuid_a: "str_uuid uuid_a = ''123e4567-e89b-42d3-a456-426614174000''"
  by code_simp

lemma str_uuid_b: "str_uuid uuid_b = ''9b2c1f04-d5e6-4a7b-8c3d-0e1f2a3b4c5d''"
  by code_simp

section \<open>The claims\<close>

text \<open>
  C1. Starting from the empty registry, after any sequence of requests every cursor in
  the cursor dictionary belongs to exactly one connection that is still in the connection
  dictionary. And once \<^verbatim>\<open>close_connection\<close> has returned \<^verbatim>\<open>True\<close> for \<open>c\<close>, no cursor
  whose handle starts with \<open>c\<close> is left, so \<^verbatim>\<open>close_cursor\<close> on such a handle returns
  \<^verbatim>\<open>False\<close> and changes nothing.
\<close>

theorem cursors_have_live_owner:
  "cursors_owned (run ops init) \<and>
   (fst (close_connection B c s) = Inr True \<and> prefix c k \<longrightarrow>
      close_cursor B' k (snd (close_connection B c s)) = (Inr False, snd (close_connection B c s)))"
proof -
  have "close_cursor B' k (snd (close_connection B c s)) = (Inr False, snd (close_connection B c s))"
    if t: "fst (close_connection B c s) = Inr True" and p: "prefix c k"
  proof -
    obtain r s' where rs: "close_connection B c s = (r, s')" by (cases "close_connection B c s")
    from rs t have r: "r = Inr True" by simp
    from rs have "k \<notin> fst ` set (cursors s')"
      by (cases rule: close_connection_cases) (use r p in auto)
    then have "map_of (cursors s') k = None" by (simp add: map_of_eq_None_iff)
    then show ?thesis using rs by (simp add: close_cursor_def)
  qed
  with reachable_owned show ?thesis by blast
qed

text \<open>The cascade on a connection with one cursor.\<close>

theorem cursors_have_live_owner_witness:
  "str_uuid uuid_a @ ''_'' @ str_uuid uuid_b \<in> fst ` set (cursors one_cursor) \<and>
   (\<exists>!c. c \<in> dom (connections one_cursor) \<and> prefix (c @ ''_'') (str_uuid uuid_a @ ''_'' @ str_uuid uuid_b)) \<and>
   fst (close_connection ok_backend (str_uuid uuid_a) one_cursor) = Inr True \<and>
   close_cursor ok_backend (str_uuid uuid_a @ ''_'' @ str_uuid uuid_b)
       (snd (close_connection ok_backend (str_uuid uuid_a) one_cursor))
     = (Inr False, snd (close_connection ok_backend (str_uuid uuid_a) one_cursor))"
proof -
  let ?k = "str_uuid uuid_a @ ''_'' @ str_uuid uuid_b"
  have m: "?k \<in> fst ` set (cursors one_cursor)" by (simp add: one_cursor_eq)
  have t: "fst (close_connection ok_backend (str_uuid uuid_a) one_cursor) = Inr True"
    by (simp add: one_cursor_eq close_connection_def ok_backend_def)
  have p: "prefix (str_uuid uuid_a) ?k" by simp
  note th = cursors_have_live_owner
    [of "[OpenConnection ok_backend uuid_a alice, OpenCursor ok_backend uuid_b (str_uuid uuid_a)]"
      ok_backend "str_uuid uuid_a" one_cursor ?k ok_backend, folded one_cursor_def]
  from th have "cursors_owned one_cursor" by (rule conjunct1)
  with m have u: "\<exists>!c. c \<in> dom (connections one_cursor) \<and> prefix (c @ ''_'') ?k"
    unfolding cursors_owned_def by blast
  from th t p have "close_cursor ok_backend ?k (snd (close_connection ok_backend (str_uuid uuid_a) one_cursor))
     = (Inr False, snd (close_connection ok_backend (str_uuid uuid_a) one_cursor))"
    by blast
  with m u t show ?thesis by blast
qed

text \<open>
  C2, as the specification states it: \<^verbatim>\<open>execute_query\<close> hands the parameters to the
  cursor whenever the caller gave some, so an empty parameter list reaches the cursor
  differently from no parameters. It does not: \<^verbatim>\<open>if parameters:\<close> is false for the empty
  list, and the cursor gets the call without parameters in both cases.
\<close>

theorem empty_parameters_counterexample:
  "execute_call_of ''SELECT 1'' (Some []) = execute_call_of ''SELECT 1'' None \<and>
   execute_call_of ''SELECT 1'' (Some []) = Execute ''SELECT 1'' \<and>
   execute_query failing_backend (str_uuid uuid_a @ ''_'' @ str_uuid uuid_b) ''SELECT 1'' (Some []) one_cursor
     = execute_query failing_backend (str_uuid uuid_a @ ''_'' @ str_uuid uuid_b) ''SELECT 1'' None one_cursor"
  by (simp add: execute_call_of_def execute_query_def one_cursor_eq)

text \<open>
  C2, amended: on a known cursor, \<^verbatim>\<open>execute_query\<close> calls the cursor's execute with
  the query and the parameters exactly when the caller gave a non-empty list, and its
  outcome is the outcome of that call; with an empty list, as with none, the cursor is
  called with the query alone, and the two requests have the same outcome.
\<close>

theorem execute_parameters_delegation:
  "(execute_call_of q ps = ExecuteParams q' l \<longleftrightarrow> q' = q \<and> ps = Some l \<and> l \<noteq> []) \<and>
   (execute_call_of q ps = Execute q' \<longleftrightarrow> q' = q \<and> (ps = None \<or> ps = Some [])) \<and>
   execute_query B k q (Some []) s = execute_query B k q None s \<and>
   (map_of (cursors s) k = Some c \<and> args \<noteq> [] \<longrightarrow>
      (execute_query B k q (Some args) s = (Inl (TrinoODBCError (''Query execution error: '' @ msg)), s)
         \<longleftrightarrow> cursor_execute B c (ExecuteParams q args) = Some msg) \<and>
      ((\<exists>r. execute_query B k q (Some args) s = (Inr r, s))
         \<longleftrightarrow> cursor_execute B c (ExecuteParams q args) = None)) \<and>
   (map_of (cursors s) k = Some c \<and> (ps = None \<or> ps = Some []) \<longrightarrow>
      (execute_query B k q ps s = (Inl (TrinoODBCError (''Query execution error: '' @ msg)), s)
         \<longleftrightarrow> cursor_execute B c (Execute q) = Some msg) \<and>
      ((\<exists>r. execute_query B k q ps s = (Inr r, s)) \<longleftrightarrow> cursor_execute B c (Execute q) = None))"
proof -
  have a: "execute_call_of q ps = ExecuteParams q' l \<longleftrightarrow> q' = q \<and> ps = Some l \<and> l \<noteq> []"
    by (auto simp: execute_call_of_def split: option.splits list.splits)
  have b: "execute_call_of q ps = Execute q' \<longleftrightarrow> q' = q \<and> (ps = None \<or> ps = Some [])"
    by (auto simp: execute_call_of_def split: option.splits list.splits)
  have c: "execute_query B k q (Some []) s = execute_query B k q None s"
    by (auto simp: execute_call_of_def execute_query_def split: option.splits)
  have d: "(execute_query B k q (Some args) s = (Inl (TrinoODBCError (''Query execution error: '' @ msg)), s)
         \<longleftrightarrow> cursor_execute B c (ExecuteParams q args) = Some msg) \<and>
      ((\<exists>r. execute_query B k q (Some args) s = (Inr r, s))
         \<longleftrightarrow> cursor_execute B c (ExecuteParams q args) = None)"
    if "map_of (cursors s) k = Some c" "args \<noteq> []"
  proof -
    from that(2) have e: "execute_call_of q (Some args) = ExecuteParams q args"
      by (cases args) (simp_all add: execute_call_of_def)
    show ?thesis
      by (cases "cursor_execute B c (ExecuteParams q args)")
         (simp_all add: execute_query_def that(1) e Let_def)
  qed
  have f: "(execute_query B k q ps s = (Inl (TrinoODBCError (''Query execution error: '' @ msg)), s)
         \<longleftrightarrow> cursor_execute B c (Execute q) = Some msg) \<and>
      ((\<exists>r. execute_query B k q ps s = (Inr r, s)) \<longleftrightarrow> cursor_execute B c (Execute q) = None)"
    if "map_of (cursors s) k = Some c" "ps = None \<or> ps = Some []"
  proof -
    from that(2) have e: "execute_call_of q ps = Execute q"
      by (auto simp: execute_call_of_def)
    show ?thesis
      by (cases "cursor_execute B c (Execute q)")
         (simp_all add: execute_query_def that(1) e Let_def)
  qed
  from a b c d f show ?thesis by blast
qed

theorem execute_parameters_delegation_witness:
  "(\<exists>r. execute_query params_only_backend (str_uuid uuid_a @ ''_'' @ str_uuid uuid_b) ''SELECT ?''
          (Some [PInt 1]) one_cursor = (Inr r, one_cursor)) \<and>
   execute_query params_only_backend (str_uuid uuid_a @ ''_'' @ str_uuid uuid_b) ''SELECT 1''
          (Some []) one_cursor
     = (Inl (TrinoODBCError ''Query execution error: no parameters''), one_cursor) \<and>
   execute_query params_only_backend (str_uuid uuid_a @ ''_'' @ str_uuid uuid_b) ''SELECT 1''
          None one_cursor
     = (Inl (TrinoODBCError ''Query execution error: no parameters''), one_cursor) \<and>
   execute_call_of ''SELECT ?'' (Some [PInt 1]) = ExecuteParams ''SELECT ?'' [PInt 1] \<and>
   execute_call_of ''SELECT 1'' (Some []) = Execute ''SELECT 1''"
proof -
  let ?k = "str_uuid uuid_a @ ''_'' @ str_uuid uuid_b"
  have c: "map_of (cursors one_cursor) ?k = Some 0" by (simp add: one_cursor_eq)
  have p: "cursor_execute params_only_backend 0 (ExecuteParams ''SELECT ?'' [PInt 1]) = None"
    by (simp add: params_only_backend_def)
  have n: "cursor_execute params_only_backend 0 (Execute ''SELECT 1'') = Some ''no parameters''"
    by (simp add: params_only_backend_def)
  note t1 = execute_parameters_delegation [where q = "''SELECT ?''" and ps = "Some [PInt 1]"
      and q' = "''SELECT ?''" and l = "[PInt 1]" and B = params_only_backend and k = ?k
      and s = one_cursor and c = 0 and args = "[PInt 1]" and msg = "''no parameters''"]
  note t2 = execute_parameters_delegation [where q = "''SELECT 1''" and ps = "Some []"
      and q' = "''SELECT 1''" and l = "[]" and B = params_only_backend and k = ?k
      and s = one_cursor and c = 0 and args = "[PInt 1]" and msg = "''no parameters''"]
  note t3 = execute_parameters_delegation [where q = "''SELECT 1''" and ps = None
      and q' = "''SELECT 1''" and l = "[]" and B = params_only_backend and k = ?k
      and s = one_cursor and c = 0 and args = "[PInt 1]" and msg = "''no parameters''"]
  from t1 c p have "\<exists>r. execute_query params_only_backend ?k ''SELECT ?'' (Some [PInt 1]) one_cursor
      = (Inr r, one_cursor)" by blast
  moreover from t2 c n have "execute_query params_only_backend ?k ''SELECT 1'' (Some []) one_cursor
     = (Inl (TrinoODBCError (''Query execution error: '' @ ''no parameters'')), one_cursor)" by blast
  moreover from t3 c n have "execute_query params_only_backend ?k ''SELECT 1'' None one_cursor
     = (Inl (TrinoODBCError (''Query execution error: '' @ ''no parameters'')), one_cursor)" by blast
  moreover from t1 have "execute_call_of ''SELECT ?'' (Some [PInt 1]) = ExecuteParams ''SELECT ?'' [PInt 1]"
    by blast
  moreover from t2 have "execute_call_of ''SELECT 1'' (Some []) = Execute ''SELECT 1''" by blast
  ultimately show ?thesis by simp
qed






text \<open>
  C5. \<^verbatim>\<open>close_connection\<close> on a handle that is not in the connection dictionary, and
  \<^verbatim>\<open>close_cursor\<close> on a handle that is not in the cursor dictionary, return \<^verbatim>\<open>False\<close>,
  raise nothing and leave the registry as it was.
\<close>

theorem close_unknown_returns_false:
  "(connections s h = None \<longrightarrow> close_connection B h s = (Inr False, s)) \<and>
   (map_of (cursors s) k = None \<longrightarrow> close_cursor B' k s = (Inr False, s))"
  by (simp add: close_connection_def close_cursor_def)

theorem close_unknown_returns_false_witness:
  "close_connection ok_backend ''nonexistent'' one_cursor = (Inr False, one_cursor) \<and>
   close_cursor ok_backend ''nonexistent'' one_cursor = (Inr False, one_cursor)"
proof -
  have "connections one_cursor ''nonexistent'' = None"
    by (simp add: one_cursor_eq str_uuid_a)
  moreover have "map_of (cursors one_cursor) ''nonexistent'' = None"
    by (simp add: one_cursor_eq str_uuid_a)
  ultimately show ?thesis
    using close_unknown_returns_false [of one_cursor "''nonexistent''" ok_backend "''nonexistent''" ok_backend]
    by blast
qed

text \<open>
  C6. On a connection handle that is not in the connection dictionary, \<^verbatim>\<open>create_cursor\<close>
  and \<^verbatim>\<open>get_connection_info\<close> raise the driver's error saying that the connection does
  not exist; on a cursor handle that is not in the cursor dictionary, \<^verbatim>\<open>execute_query\<close>
  and \<^verbatim>\<open>fetch_results\<close> raise the driver's error saying that the cursor does not exist.
  None returns a result, none calls the backend, none changes the registry.
\<close>

theorem unknown_handle_not_found:
  "(connections s h = None \<longrightarrow>
      create_cursor B u h s = (Inl (TrinoODBCError (''Connection '' @ h @ '' does not exist'')), s) \<and>
      get_connection_info h s = (Inl (TrinoODBCError (''Connection '' @ h @ '' does not exist'')), s)) \<and>
   (map_of (cursors s) k = None \<longrightarrow>
      execute_query B k q ps s = (Inl (TrinoODBCError (''Cursor '' @ k @ '' does not exist'')), s) \<and>
      fetch_results B k n s = (Inl (TrinoODBCError (''Cursor '' @ k @ '' does not exist'')), s))"
  by (simp add: create_cursor_def get_connection_info_def execute_query_def fetch_results_def)

theorem unknown_handle_not_found_witness:
  "create_cursor ok_backend uuid_b ''nonexistent'' one_cursor
     = (Inl (TrinoODBCError ''Connection nonexistent does not exist''), one_cursor) \<and>
   get_connection_info ''nonexistent'' one_cursor
     = (Inl (TrinoODBCError ''Connection nonexistent does not exist''), one_cursor) \<and>
   execute_query ok_backend ''nonexistent'' ''SELECT 1'' None one_cursor
     = (Inl (TrinoODBCError ''Cursor nonexistent does not exist''), one_cursor) \<and>
   fetch_results ok_backend ''nonexistent'' 10 one_cursor
     = (Inl (TrinoODBCError ''Cursor nonexistent does not exist''), one_cursor)"
proof -
  have "connections one_cursor ''nonexistent'' = None"
    by (simp add: one_cursor_eq str_uuid_a)
  moreover have "map_of (cursors one_cursor) ''nonexistent'' = None"
    by (simp add: one_cursor_eq str_uuid_a)
  ultimately show ?thesis
    using unknown_handle_not_found [of one_cursor "''nonexistent''" ok_backend uuid_b "''nonexistent''"
        "''SELECT 1''" None 10]
    by simp
qed

text \<open>
  C7. When the backend's connect raises, \<^verbatim>\<open>create_connection\<close> raises the driver's
  error with the backend's message and the registry is as before. When, on a known
  cursor, the backend's execute raises, \<^verbatim>\<open>execute_query\<close> raises the driver's error with
  the backend's message and the registry is as before, so that a later execute on the
  same handle that the backend accepts returns a result.
\<close>

theorem failure_leaves_registry:
  "(trino_connect B (make_connect_args params) = Inl msg \<longrightarrow>
      create_connection B u params s
        = (Inl (TrinoODBCError (''Failed to connect to Trino: '' @ msg)), s)) \<and>
   (map_of (cursors s) k = Some c \<and> cursor_execute B c (execute_call_of q ps) = Some msg \<longrightarrow>
      execute_query B k q ps s = (Inl (TrinoODBCError (''Query execution error: '' @ msg)), s) \<and>
      (\<forall>B' q' ps'. cursor_execute B' c (execute_call_of q' ps') = None \<longrightarrow>
         (\<exists>r. execute_query B' k q' ps' s = (Inr r, s))))"
  by (simp add: create_connection_def execute_query_def Let_def)

theorem failure_leaves_registry_witness:
  "create_connection failing_backend uuid_b alice one_cursor
     = (Inl (TrinoODBCError ''Failed to connect to Trino: refused''), one_cursor) \<and>
   execute_query failing_backend (str_uuid uuid_a @ ''_'' @ str_uuid uuid_b) ''SELEC 1'' None one_cursor
     = (Inl (TrinoODBCError ''Query execution error: syntax error''), one_cursor) \<and>
   (\<exists>r. execute_query ok_backend (str_uuid uuid_a @ ''_'' @ str_uuid uuid_b) ''SELECT 1'' None one_cursor
          = (Inr r, one_cursor))"
proof -
  let ?k = "str_uuid uuid_a @ ''_'' @ str_uuid uuid_b"
  have a: "trino_connect failing_backend (make_connect_args alice) = Inl ''refused''"
    by (simp add: failing_backend_def)
  have b: "map_of (cursors one_cursor) ?k = Some 0" by (simp add: one_cursor_eq)
  have c: "cursor_execute failing_backend 0 (execute_call_of ''SELEC 1'' None) = Some ''syntax error''"
    by (simp add: failing_backend_def)
  have d: "cursor_execute ok_backend 0 (execute_call_of ''SELECT 1'' None) = None"
    by (simp add: ok_backend_def)
  from failure_leaves_registry [of failing_backend alice "''refused''" uuid_b one_cursor] a
  have "create_connection failing_backend uuid_b alice one_cursor
     = (Inl (TrinoODBCError (''Failed to connect to Trino: '' @ ''refused'')), one_cursor)"
    by (rule conjunct1 [THEN mp])
  moreover
  from failure_leaves_registry [of failing_backend alice "''syntax error''" uuid_b one_cursor ?k 0
      "''SELEC 1''" None] b c
  have "execute_query failing_backend ?k ''SELEC 1'' None one_cursor
          = (Inl (TrinoODBCError (''Query execution error: '' @ ''syntax error'')), one_cursor) \<and>
        (\<forall>B' q' ps'. cursor_execute B' 0 (execute_call_of q' ps') = None \<longrightarrow>
           (\<exists>r. execute_query B' ?k q' ps' one_cursor = (Inr r, one_cursor)))"
    by blast
  ultimately show ?thesis using d by auto
qed

text \<open>
  C8, as the specification states it: the connection handles returned by successful
  \<^verbatim>\<open>create_connection\<close> calls are pairwise distinct, likewise the cursor handles, and a
  handle in use is never returned. The registry does not look a new handle up before it
  stores it: when the UUID generator repeats a value, the same handle is returned again
  and the entry stored under it is replaced.
\<close>

theorem repeated_uuid_counterexample:
  "connection_handles [OpenConnection ok_backend uuid_a alice, OpenConnection ok_backend uuid_a alice] init
     = [str_uuid uuid_a, str_uuid uuid_a] \<and>
   \<not> distinct (connection_handles
                 [OpenConnection ok_backend uuid_a alice, OpenConnection ok_backend uuid_a alice] init) \<and>
   str_uuid uuid_a \<in> dom (connections (run [OpenConnection ok_backend uuid_a alice] init)) \<and>
   fst (create_connection ok_backend uuid_a alice (run [OpenConnection ok_backend uuid_a alice] init))
     = Inr (str_uuid uuid_a) \<and>
   \<not> distinct (cursor_handles
                 [OpenCursor ok_backend uuid_b (str_uuid uuid_a), OpenCursor ok_backend uuid_b (str_uuid uuid_a)]
                 (run [OpenConnection ok_backend uuid_a alice] init))"
  by (simp add: create_connection_def create_cursor_def ok_backend_def init_def Let_def)

text \<open>
  C8, amended: the handle returned by a successful \<^verbatim>\<open>create_connection\<close> is the text of
  the UUID drawn, and the one returned by a successful \<^verbatim>\<open>create_cursor\<close> is the connection
  handle, an underscore and the text of the UUID drawn, whatever the registry holds.
  Hence, within a sequence of requests in which the UUID generator gives a different UUID
  at each call, the connection handles returned are pairwise distinct, so are the cursor
  handles returned, and, starting from the empty registry, a handle given out is not a key
  of the dictionary it is stored into.
\<close>

theorem handles_pairwise_distinct:
  "(distinct (connection_uuids ops) \<longrightarrow> distinct (connection_handles ops s)) \<and>
   (distinct (cursor_uuids ops) \<longrightarrow> distinct (cursor_handles ops s)) \<and>
   (distinct (connection_uuids (ops @ [OpenConnection B u p])) \<longrightarrow>
      str_uuid u \<notin> dom (connections (run ops init))) \<and>
   (distinct (cursor_uuids (ops @ [OpenCursor B u c])) \<longrightarrow>
      c @ ''_'' @ str_uuid u \<notin> fst ` set (cursors (run ops init))) \<and>
   (fst (create_connection B u p s) = Inr h \<longrightarrow> h = str_uuid u) \<and>
   (fst (create_cursor B u c s) = Inr h' \<longrightarrow> h' = c @ ''_'' @ str_uuid u)"
proof (intro conjI impI)
  assume "distinct (connection_uuids ops)"
  then show "distinct (connection_handles ops s)" by (rule connection_handles_distinct)
next
  assume "distinct (cursor_uuids ops)"
  then show "distinct (cursor_handles ops s)" by (rule cursor_handles_distinct)
next
  assume "distinct (connection_uuids (ops @ [OpenConnection B u p]))"
  then show "str_uuid u \<notin> dom (connections (run ops init))" by (rule fresh_connection_handle)
next
  assume "distinct (cursor_uuids (ops @ [OpenCursor B u c]))"
  then show "c @ ''_'' @ str_uuid u \<notin> fst ` set (cursors (run ops init))"
    by (rule fresh_cursor_handle)
next
  assume "fst (create_connection B u p s) = Inr h"
  then show "h = str_uuid u"
    by (cases rule: create_connection_cases [of B u p s]) auto
next
  assume "fst (create_cursor B u c s) = Inr h'"
  then show "h' = c @ ''_'' @ str_uuid u"
    by (cases rule: create_cursor_cases [of B u c s]) auto
qed

text \<open>Two connections and two cursors on different UUIDs.\<close>

theorem handles_pairwise_distinct_witness:
  "distinct (connection_uuids [OpenConnection ok_backend uuid_a alice, OpenConnection ok_backend uuid_b alice]) \<and>
   distinct (connection_handles [OpenConnection ok_backend uuid_a alice, OpenConnection ok_backend uuid_b alice] init) \<and>
   distinct (cursor_uuids [OpenCursor ok_backend uuid_a (str_uuid uuid_a), OpenCursor ok_backend uuid_b (str_uuid uuid_a)]) \<and>
   distinct (cursor_handles [OpenCursor ok_backend uuid_a (str_uuid uuid_a), OpenCursor ok_backend uuid_b (str_uuid uuid_a)]
               (snd (create_connection ok_backend uuid_a alice init))) \<and>
   str_uuid uuid_b \<notin> dom (connections (run [OpenConnection ok_backend uuid_a alice] init)) \<and>
   str_uuid uuid_a @ ''_'' @ str_uuid uuid_b
     \<notin> fst ` set (cursors (run [OpenConnection ok_backend uuid_a alice, OpenCursor ok_backend uuid_a (str_uuid uuid_a)] init)) \<and>
   fst (create_connection ok_backend uuid_b alice one_cursor) = Inr (str_uuid uuid_b) \<and>
   fst (create_cursor ok_backend uuid_a (str_uuid uuid_a) one_cursor)
     = Inr (str_uuid uuid_a @ ''_'' @ str_uuid uuid_a)"
proof -
  let ?A = "[OpenConnection ok_backend uuid_a alice, OpenConnection ok_backend uuid_b alice]"
  let ?C = "[OpenCursor ok_backend uuid_a (str_uuid uuid_a), OpenCursor ok_backend uuid_b (str_uuid uuid_a)]"
  let ?D = "[OpenConnection ok_backend uuid_a alice, OpenCursor ok_backend uuid_a (str_uuid uuid_a)]"
  let ?s = "snd (create_connection ok_backend uuid_a alice init)"
  have d1: "distinct (connection_uuids ?A)"
    using uuid_a_neq_b by (simp add: connection_uuids_def)
  have d2: "distinct (cursor_uuids ?C)"
    using uuid_a_neq_b by (simp add: cursor_uuids_def)
  have d3: "distinct (connection_uuids ([OpenConnection ok_backend uuid_a alice] @ [OpenConnection ok_backend uuid_b alice]))"
    using uuid_a_neq_b by (simp add: connection_uuids_def)
  have d4: "distinct (cursor_uuids (?D @ [OpenCursor ok_backend uuid_b (str_uuid uuid_a)]))"
    using uuid_a_neq_b by (simp add: cursor_uuids_def)
  have e1: "fst (create_connection ok_backend uuid_b alice one_cursor) = Inr (str_uuid uuid_b)"
    by (simp add: create_connection_def ok_backend_def Let_def)
  have e2: "fst (create_cursor ok_backend uuid_a (str_uuid uuid_a) one_cursor)
      = Inr (str_uuid uuid_a @ ''_'' @ str_uuid uuid_a)"
    by (simp add: create_cursor_def one_cursor_eq ok_backend_def Let_def)
  from handles_pairwise_distinct [of ?A init ok_backend uuid_b alice "str_uuid uuid_a"
      "str_uuid uuid_b" "str_uuid uuid_a @ ''_'' @ str_uuid uuid_b"] d1
  have c1: "distinct (connection_handles ?A init)" by blast
  from handles_pairwise_distinct [of ?C ?s ok_backend uuid_b alice "str_uuid uuid_a"
      "str_uuid uuid_b" "str_uuid uuid_a @ ''_'' @ str_uuid uuid_b"] d2
  have c2: "distinct (cursor_handles ?C ?s)" by blast
  from handles_pairwise_distinct [of "[OpenConnection ok_backend uuid_a alice]" one_cursor ok_backend
      uuid_b alice "str_uuid uuid_a" "str_uuid uuid_b" "str_uuid uuid_a @ ''_'' @ str_uuid uuid_b"] d3 e1
  have c3: "str_uuid uuid_b \<notin> dom (connections (run [OpenConnection ok_backend uuid_a alice] init))"
    by blast
  from handles_pairwise_distinct [of ?D one_cursor ok_backend uuid_b alice "str_uuid uuid_a"
      "str_uuid uuid_b" "str_uuid uuid_a @ ''_'' @ str_uuid uuid_b"] d4
  have c4: "str_uuid uuid_a @ ''_'' @ str_uuid uuid_b \<notin> fst ` set (cursors (run ?D init))"
    by blast
  from d1 c1 d2 c2 c3 c4 e1 e2 show ?thesis by (intro conjI)
qed

text \<open>
  C10. Starting from the empty registry, after any sequence of requests the connection
  dictionary and the dictionary of stored parameters have the same keys; so
  \<^verbatim>\<open>get_connection_info\<close> on a live connection finds the stored parameters and returns
  them (masked); and \<^verbatim>\<open>get_connection_info\<close> never changes the registry.
\<close>

theorem params_follow_connections:
  "same_keys (run ops init) \<and>
   (\<forall>h \<in> dom (connections (run ops init)).
      \<exists>info. get_connection_info h (run ops init) = (Inr info, run ops init)) \<and>
   snd (get_connection_info h' s) = s"
proof -
  have a: "same_keys (run ops init)" by (rule run_same_keys) (simp add: same_keys_def init_def)
  have "\<exists>info. get_connection_info h (run ops init) = (Inr info, run ops init)"
    if "h \<in> dom (connections (run ops init))" for h
  proof -
    from that a have "h \<in> dom (connection_params (run ops init))" by (simp add: same_keys_def)
    with that show ?thesis by (auto simp: get_connection_info_def Let_def)
  qed
  with a get_connection_info_state show ?thesis by blast
qed

theorem params_follow_connections_witness:
  "dom (connections one_cursor) = dom (connection_params one_cursor) \<and>
   str_uuid uuid_a \<in> dom (connections one_cursor) \<and>
   (\<exists>info. get_connection_info (str_uuid uuid_a) one_cursor = (Inr info, one_cursor))"
proof -
  note th = params_follow_connections
    [of "[OpenConnection ok_backend uuid_a alice, OpenCursor ok_backend uuid_b (str_uuid uuid_a)]",
      folded one_cursor_def]
  have m: "str_uuid uuid_a \<in> dom (connections one_cursor)" by (simp add: one_cursor_eq)
  from th have "same_keys one_cursor" by (rule conjunct1)
  then have k: "dom (connections one_cursor) = dom (connection_params one_cursor)"
    by (simp add: same_keys_def)
  from th m have "\<exists>info. get_connection_info (str_uuid uuid_a) one_cursor = (Inr info, one_cursor)"
    by blast
  with k m show ?thesis by blast
qed

end
